theory Spec2Isabelle
  imports Main "HOL-Library.Word" "HOL-Library.Sublist" "HOL-Library.AList"
begin

section \<open>py2droid: scripts/build.py\<close>

text \<open>
  A shallow embedding of \<^verbatim>\<open>scripts/build.py\<close>. Python strings are lists of
  characters (code points below 256), byte strings are lists of 8-bit words, a raised
  exception is the left injection of a sum type.
\<close>

type_synonym byte = "8 word"

datatype error =
    ValueError string
  | TypeError string
  | OSError string
  | KeyError string
  | StopIteration
  | CalledProcessError "string list" int
  | UnicodeEncodeError

subsection \<open>Strings and text files\<close>

definition LF :: char where
  "LF = CHR 0x0A"

definition CR :: char where
  "CR = CHR 0x0D"

text \<open>
  The characters below code point 256 for which \<^verbatim>\<open>str.isspace\<close> holds; they are
  the ones \<^verbatim>\<open>str.strip()\<close> removes.
\<close>

definition whitespace :: "char list" where
  "whitespace =
     [CHR 0x09, CHR 0x0A, CHR 0x0B, CHR 0x0C, CHR 0x0D, CHR 0x1C, CHR 0x1D, CHR 0x1E,
      CHR 0x1F, CHR 0x20, CHR 0x85, CHR 0xA0]"

definition isspace :: "char \<Rightarrow> bool" where
  "isspace c = (c \<in> set whitespace)"

text \<open>\<^verbatim>\<open>str.strip()\<close>: leading and trailing whitespace removed.\<close>

definition strip :: "string \<Rightarrow> string" where
  "strip s = rev (dropWhile isspace (rev (dropWhile isspace s)))"

text \<open>\<^verbatim>\<open>str.startswith(p)\<close>.\<close>

definition startswith :: "string \<Rightarrow> string \<Rightarrow> bool" where
  "startswith s p = prefix p s"

text \<open>
  \<^verbatim>\<open>str.upper()\<close> on ASCII text. The architecture codes it is applied to are the
  values of \<open>arch_mapping\<close> and the default \<^verbatim>\<open>"unknown"\<close>, all ASCII.
\<close>

definition upper_char :: "char \<Rightarrow> char" where
  "upper_char c =
     (case map_of (zip ''abcdefghijklmnopqrstuvwxyz'' ''ABCDEFGHIJKLMNOPQRSTUVWXYZ'') c of
        Some u \<Rightarrow> u
      | None \<Rightarrow> c)"

definition upper :: "string \<Rightarrow> string" where
  "upper s = map upper_char s"

text \<open>\<^verbatim>\<open>sep.join(xs)\<close>.\<close>

fun join :: "string \<Rightarrow> string list \<Rightarrow> string" where
  "join sep [] = []"
| "join sep [x] = x"
| "join sep (x # y # ys) = x @ sep @ join sep (y # ys)"

text \<open>
  A file opened in text mode translates \<^verbatim>\<open>\r\n\<close> and \<^verbatim>\<open>\r\<close> to \<^verbatim>\<open>\n\<close>
  (universal newlines); iterating over it yields the lines, each with its terminating
  \<^verbatim>\<open>\n\<close>, the last one without it when the text does not end in one.
\<close>

fun universal_newlines :: "string \<Rightarrow> string" where
  "universal_newlines [] = []"
| "universal_newlines [c] = (if c = CR then [LF] else [c])"
| "universal_newlines (c # d # cs) =
     (if c = CR \<and> d = LF then LF # universal_newlines cs
      else if c = CR then LF # universal_newlines (d # cs)
      else c # universal_newlines (d # cs))"

fun iter_lines :: "string \<Rightarrow> string list" where
  "iter_lines [] = []"
| "iter_lines (c # cs) =
     (if c = LF then [c] # iter_lines cs
      else (case iter_lines cs of
              [] \<Rightarrow> [[c]]
            | l # ls \<Rightarrow> (c # l) # ls))"

definition text_lines :: "string \<Rightarrow> string list" where
  "text_lines content = iter_lines (universal_newlines content)"

text \<open>\<^verbatim>\<open>sep in line\<close>.\<close>

fun contains :: "string \<Rightarrow> string \<Rightarrow> bool" where
  "contains sep [] = (sep = [])"
| "contains sep (c # cs) = (prefix sep (c # cs) \<or> contains sep cs)"

text \<open>
  The parts of \<open>line\<close> before and after the first occurrence of a non-empty \<open>sep\<close>.
\<close>

fun partition_first :: "string \<Rightarrow> string \<Rightarrow> (string \<times> string) option" where
  "partition_first sep [] = None"
| "partition_first sep (c # cs) =
     (if prefix sep (c # cs) then Some ([], drop (length sep) (c # cs))
      else (case partition_first sep cs of
              None \<Rightarrow> None
            | Some (a, b) \<Rightarrow> Some (c # a, b)))"

text \<open>\<^verbatim>\<open>line.split(sep, 1)\<close>; an empty separator raises \<^verbatim>\<open>ValueError\<close>.\<close>

definition split1 :: "string \<Rightarrow> string \<Rightarrow> error + string list" where
  "split1 sep line =
     (if sep = [] then Inl (ValueError ''empty separator'')
      else (case partition_first sep line of
              None \<Rightarrow> Inr [line]
            | Some (a, b) \<Rightarrow> Inr [a, b]))"

subsection \<open>getprops\<close>

text \<open>
  The loop of \<^verbatim>\<open>getprops\<close> over the lines of the property file; \<open>vals\<close> is the
  list \<^verbatim>\<open>values\<close> the source appends to.
\<close>

fun getprops_loop :: "string list \<Rightarrow> string \<Rightarrow> string list \<Rightarrow> string list \<Rightarrow> error + string list"
  where
  "getprops_loop keys sep [] vals = Inr vals"
| "getprops_loop keys sep (line # rest) vals =
     (if \<not> contains sep line then getprops_loop keys sep rest vals
      else (case split1 sep line of
              Inl e \<Rightarrow> Inl e
            | Inr fields \<Rightarrow>
                (if length fields \<noteq> 2 then getprops_loop keys sep rest vals
                 else if strip (fields ! 0) \<in> set keys
                   then getprops_loop keys sep rest (vals @ [strip (fields ! 1)])
                   else getprops_loop keys sep rest vals)))"

text \<open>
  \<^verbatim>\<open>getprops(file, *keys, sep)\<close>; \<open>content\<close> is the text of the file, \<open>None\<close>
  when it cannot be opened.
\<close>

definition getprops :: "string option \<Rightarrow> string list \<Rightarrow> string \<Rightarrow> error + string list" where
  "getprops file keys sep =
     (case file of
        None \<Rightarrow> Inl (OSError ''No such file or directory'')
      | Some content \<Rightarrow> getprops_loop keys sep (text_lines content) [])"

text \<open>
  The tuple assignment \<^verbatim>\<open>self.module_name, self.module_ver = getprops(...)\<close> of
  \<^verbatim>\<open>ModuleBuilder.__init__\<close>: a tuple of any other length than two raises
  \<^verbatim>\<open>ValueError\<close>.
\<close>

fun unpack2 :: "string list \<Rightarrow> error + (string \<times> string)" where
  "unpack2 [] = Inl (ValueError ''not enough values to unpack (expected 2, got 0)'')"
| "unpack2 [a] = Inl (ValueError ''not enough values to unpack (expected 2, got 1)'')"
| "unpack2 [a, b] = Inr (a, b)"
| "unpack2 (a # b # c # cs) = Inl (ValueError ''too many values to unpack (expected 2)'')"

definition module_name_version :: "string option \<Rightarrow> error + (string \<times> string)" where
  "module_name_version module_prop =
     (case getprops module_prop [''name'', ''version''] ''='' of
        Inl e \<Rightarrow> Inl e
      | Inr vals \<Rightarrow> unpack2 vals)"

subsection \<open>ModuleBuilder: the module descriptor\<close>

text \<open>
  The loop of \<^verbatim>\<open>ModuleBuilder._process_module_prop\<close>; \<open>acc\<close> is the list
  \<^verbatim>\<open>lines\<close> the source appends to.
\<close>

fun process_module_prop_loop :: "string \<Rightarrow> string \<Rightarrow> string list \<Rightarrow> string list \<Rightarrow> string list"
  where
  "process_module_prop_loop python_ver arch [] acc = acc"
| "process_module_prop_loop python_ver arch (line # rest) acc =
     (if startswith line ''description''
      then process_module_prop_loop python_ver arch rest
             (acc @ [''description=CPython '' @ python_ver @ '' for '' @ upper arch])
      else process_module_prop_loop python_ver arch rest (acc @ [strip line]))"

definition process_module_prop :: "string \<Rightarrow> string \<Rightarrow> string \<Rightarrow> string" where
  "process_module_prop python_ver arch content =
     join [LF] (process_module_prop_loop python_ver arch (text_lines content) [])"

text \<open>
  The descriptor rewrite as the specification words it: the description line replaced,
  every other line passed through verbatim (without its line terminator).
\<close>

definition chomp :: "string \<Rightarrow> string" where
  "chomp line = (if line \<noteq> [] \<and> last line = LF then butlast line else line)"

definition spec_process_module_prop :: "string \<Rightarrow> string \<Rightarrow> string \<Rightarrow> string" where
  "spec_process_module_prop python_ver arch content =
     join [LF]
       (map (\<lambda>line. if startswith line ''description''
                     then ''description=CPython '' @ python_ver @ '' for '' @ upper arch
                     else chomp line)
            (text_lines content))"

subsection \<open>ModuleBuilder: the architecture mapping\<close>

text \<open>The dictionary \<^verbatim>\<open>self.arch_mapping\<close> of \<^verbatim>\<open>ModuleBuilder.__init__\<close>.\<close>

definition arch_mapping :: "(string \<times> string) list" where
  "arch_mapping =
     [(''aarch64-linux-android'', ''arm64''),
      (''armv7a-linux-androideabi'', ''arm''),
      (''arm-linux-androideabi'', ''arm''),
      (''x86_64-linux-android'', ''x64''),
      (''i686-linux-android'', ''x86'')]"

text \<open>\<^verbatim>\<open>self.arch_mapping.get(host, "unknown")\<close> in \<^verbatim>\<open>ModuleBuilder.build\<close>.\<close>

definition arch_of :: "string \<Rightarrow> string" where
  "arch_of host = (case map_of arch_mapping host of Some a \<Rightarrow> a | None \<Rightarrow> ''unknown'')"

text \<open>
  A line without surrounding whitespace: what is left of it once its line terminator is
  removed is empty or has a non-whitespace first and last character.
\<close>

definition clean_line :: "string \<Rightarrow> bool" where
  "clean_line line =
     (chomp line = [] \<or> (\<not> isspace (hd (chomp line)) \<and> \<not> isspace (last (chomp line))))"

text \<open>
  The key and the value of a property line: the stripped text before and after the first
  separator; the lines of a property file whose key is among the requested ones.
\<close>

definition prop_key :: "string \<Rightarrow> string \<Rightarrow> string option" where
  "prop_key sep line =
     (case partition_first sep line of None \<Rightarrow> None | Some (k, v) \<Rightarrow> Some (strip k))"

definition prop_value :: "string \<Rightarrow> string \<Rightarrow> string" where
  "prop_value sep line =
     (case partition_first sep line of None \<Rightarrow> [] | Some (k, v) \<Rightarrow> strip v)"

definition matching_lines :: "string list \<Rightarrow> string \<Rightarrow> string \<Rightarrow> string list" where
  "matching_lines keys sep content =
     filter (\<lambda>line. case prop_key sep line of None \<Rightarrow> False | Some k \<Rightarrow> k \<in> set keys)
       (text_lines content)"

subsection \<open>The file system\<close>

text \<open>
  A path is the list of its components. A directory has the names of its entries in the
  order \<^verbatim>\<open>iterdir()\<close> yields them. A regular file is reached through its inode: the
  tree gives what a path leads to, the store gives the contents of an inode, so that two
  paths can lead to one file, as with a hard link or with a symbolic link, which
  \<^verbatim>\<open>is_file()\<close> and \<^verbatim>\<open>open()\<close> follow. A regular file has its bytes and whether it
  can be opened for reading and for writing.
\<close>

type_synonym path = "string list"

type_synonym inode = nat

record regfile =
  data :: "byte list"
  readable :: bool
  writable :: bool

datatype node = File inode | Dir "string list"

record filesystem =
  tree :: "path \<Rightarrow> node option"
  store :: "inode \<Rightarrow> regfile option"

text \<open>
  The components of a path given as text, as \<^verbatim>\<open>pathlib\<close> keeps them: empty components
  and \<^verbatim>\<open>.\<close> are dropped.
\<close>

fun split_slash :: "string \<Rightarrow> string list" where
  "split_slash [] = [[]]"
| "split_slash (c # cs) =
     (if c = CHR ''/'' then [] # split_slash cs
      else (case split_slash cs of
              [] \<Rightarrow> [[c]]
            | x # xs \<Rightarrow> (c # x) # xs))"

definition path_parts :: "string \<Rightarrow> string list" where
  "path_parts s = filter (\<lambda>c. c \<noteq> [] \<and> c \<noteq> ''.'') (split_slash s)"

text \<open>
  \<^verbatim>\<open>p / s\<close> for a path \<open>p\<close> and a text \<open>s\<close>: the components of \<open>s\<close> are appended; when
  \<open>s\<close> starts with a slash it replaces \<open>p\<close>.
\<close>

definition joinpath :: "path \<Rightarrow> string \<Rightarrow> path" where
  "joinpath p s = (if s \<noteq> [] \<and> hd s = CHR ''/'' then path_parts s else p @ path_parts s)"


definition is_file :: "filesystem \<Rightarrow> path \<Rightarrow> bool" where
  "is_file fs p = (case tree fs p of Some (File i) \<Rightarrow> True | _ \<Rightarrow> False)"

definition is_dir :: "filesystem \<Rightarrow> path \<Rightarrow> bool" where
  "is_dir fs p = (case tree fs p of Some (Dir names) \<Rightarrow> True | _ \<Rightarrow> False)"

definition iterdir :: "filesystem \<Rightarrow> path \<Rightarrow> error + path list" where
  "iterdir fs p =
     (case tree fs p of
        Some (Dir names) \<Rightarrow> Inr (map (\<lambda>name. p @ [name]) names)
      | _ \<Rightarrow> Inl (OSError ''Not a directory''))"

subsection \<open>is\_binary\<close>

text \<open>
  \<^verbatim>\<open>bytearray({7, 8, 9, 10, 12, 13, 27} | set(range(0x20, 0x100)) - {0x7F})\<close>: set
  difference binds tighter than union.
\<close>

definition textchars :: "byte list" where
  "textchars =
     [7, 8, 9, 10, 12, 13, 27] @ filter (\<lambda>b. b \<noteq> 0x7F) (map of_nat [0x20 ..< 0x100])"

text \<open>\<^verbatim>\<open>b.translate(None, delete)\<close>: the bytes of \<open>b\<close> that are not in \<open>delete\<close>.\<close>

definition translate_delete :: "byte list \<Rightarrow> byte list \<Rightarrow> byte list" where
  "translate_delete b delete = filter (\<lambda>x. x \<notin> set delete) b"

definition is_binary :: "byte list \<Rightarrow> bool" where
  "is_binary b = (translate_delete b textchars \<noteq> [])"



subsection \<open>UTF-8\<close>

text \<open>
  \<^verbatim>\<open>bytes.decode()\<close>: strict UTF-8 decoding to code points; \<open>None\<close> is
  \<^verbatim>\<open>UnicodeDecodeError\<close>. A file opened for writing in text mode encodes what is
  written with the locale's encoding, taken to be UTF-8; \<open>None\<close> is
  \<^verbatim>\<open>UnicodeEncodeError\<close>.
\<close>

type_synonym ustr = "nat list"

definition between :: "byte \<Rightarrow> byte \<Rightarrow> byte \<Rightarrow> bool" where
  "between lo hi b = (lo \<le> b \<and> b \<le> hi)"

definition second_lo :: "byte \<Rightarrow> byte" where
  "second_lo b0 = (if b0 = 0xE0 then 0xA0 else if b0 = 0xF0 then 0x90 else 0x80)"

definition second_hi :: "byte \<Rightarrow> byte" where
  "second_hi b0 = (if b0 = 0xED then 0x9F else if b0 = 0xF4 then 0x8F else 0xBF)"

fun utf8_decode :: "byte list \<Rightarrow> ustr option" where
  "utf8_decode [] = Some []"
| "utf8_decode (b0 # bs) =
     (if b0 < 0x80 then map_option ((#) (unat b0)) (utf8_decode bs)
      else if between 0xC2 0xDF b0 then
        (case bs of
           b1 # r \<Rightarrow>
             if between 0x80 0xBF b1
             then map_option ((#) ((unat b0 - 0xC0) * 64 + (unat b1 - 0x80))) (utf8_decode r)
             else None
         | _ \<Rightarrow> None)
      else if between 0xE0 0xEF b0 then
        (case bs of
           b1 # b2 # r \<Rightarrow>
             if between (second_lo b0) (second_hi b0) b1 \<and> between 0x80 0xBF b2
             then map_option
                    ((#) ((unat b0 - 0xE0) * 4096 + (unat b1 - 0x80) * 64 + (unat b2 - 0x80)))
                    (utf8_decode r)
             else None
         | _ \<Rightarrow> None)
      else if between 0xF0 0xF4 b0 then
        (case bs of
           b1 # b2 # b3 # r \<Rightarrow>
             if between (second_lo b0) (second_hi b0) b1 \<and> between 0x80 0xBF b2
                \<and> between 0x80 0xBF b3
             then map_option
                    ((#) ((unat b0 - 0xF0) * 262144 + (unat b1 - 0x80) * 4096
                          + (unat b2 - 0x80) * 64 + (unat b3 - 0x80)))
                    (utf8_decode r)
             else None
         | _ \<Rightarrow> None)
      else None)"

definition utf8_encode_char :: "nat \<Rightarrow> byte list option" where
  "utf8_encode_char c =
     (if c < 0x80 then Some [of_nat c]
      else if c < 0x800 then Some [of_nat (0xC0 + c div 64), of_nat (0x80 + c mod 64)]
      else if 0xD800 \<le> c \<and> c \<le> 0xDFFF then None
      else if c < 0x10000 then
        Some [of_nat (0xE0 + c div 4096), of_nat (0x80 + c div 64 mod 64),
              of_nat (0x80 + c mod 64)]
      else if c < 0x110000 then
        Some [of_nat (0xF0 + c div 262144), of_nat (0x80 + c div 4096 mod 64),
              of_nat (0x80 + c div 64 mod 64), of_nat (0x80 + c mod 64)]
      else None)"

fun utf8_encode :: "ustr \<Rightarrow> byte list option" where
  "utf8_encode [] = Some []"
| "utf8_encode (c # cs) =
     (case utf8_encode_char c of
        None \<Rightarrow> None
      | Some bs \<Rightarrow> map_option ((@) bs) (utf8_encode cs))"

text \<open>A string literal of the source as code points.\<close>

definition ustr_of :: "string \<Rightarrow> ustr" where
  "ustr_of s = map of_char s"

subsection \<open>Shebang rewrite\<close>

text \<open>
  A compiled regular expression is the function that gives, for a text, the length of
  the match starting at its first character, if there is one: \<^verbatim>\<open>pattern.match(s)\<close>.
\<close>

type_synonym pattern = "ustr \<Rightarrow> nat option"

text \<open>
  \<^verbatim>\<open>pattern.sub(replacement, content, 1)\<close> for a replacement without escapes: the
  leftmost match is replaced, the text is returned as it is when nothing matches.
\<close>

fun sub_first :: "pattern \<Rightarrow> ustr \<Rightarrow> ustr \<Rightarrow> ustr" where
  "sub_first pattern replacement [] =
     (case pattern [] of Some n \<Rightarrow> replacement | None \<Rightarrow> [])"
| "sub_first pattern replacement (c # cs) =
     (case pattern (c # cs) of
        Some n \<Rightarrow> replacement @ drop n (c # cs)
      | None \<Rightarrow> c # sub_first pattern replacement cs)"

text \<open>
  \<^verbatim>\<open>replace_shebang\<close>; the result is the returned flag and the file system after
  the call. \<^verbatim>\<open>OSError\<close> and \<^verbatim>\<open>UnicodeDecodeError\<close> are caught and give
  \<open>False\<close>; \<^verbatim>\<open>UnicodeEncodeError\<close> is not caught. The file is written through its
  inode, so every path that leads to it sees the new contents.
\<close>

definition replace_shebang :: "filesystem \<Rightarrow> path \<Rightarrow> pattern \<Rightarrow> ustr \<Rightarrow> error + (bool \<times> filesystem)"
  where
  "replace_shebang fs p pattern replacement =
     (case tree fs p of
        Some (File i) \<Rightarrow>
          (case store fs i of
             Some f \<Rightarrow>
               if \<not> readable f then Inr (False, fs)
               else if is_binary (take 1024 (data f)) then Inr (False, fs)
               else (case utf8_decode (data f) of
                       None \<Rightarrow> Inr (False, fs)
                     | Some content \<Rightarrow>
                         (case pattern content of
                            None \<Rightarrow> Inr (False, fs)
                          | Some n \<Rightarrow>
                              if \<not> writable f then Inr (False, fs)
                              else (case utf8_encode (sub_first pattern replacement content) of
                                      None \<Rightarrow> Inl UnicodeEncodeError
                                    | Some bs \<Rightarrow>
                                        Inr (True,
                                             fs\<lparr>store := (store fs)(i \<mapsto> f\<lparr>data := bs\<rparr>)\<rparr>))))
           | None \<Rightarrow> Inr (False, fs))
      | _ \<Rightarrow> Inr (False, fs))"

text \<open>
  The loop over \<^verbatim>\<open>patterns.values()\<close> for one file: it stops at the first pattern
  for which \<^verbatim>\<open>replace_shebang\<close> returns true.
\<close>

fun replace_first_shebang :: "filesystem \<Rightarrow> path \<Rightarrow> (pattern \<times> ustr) list \<Rightarrow> error + filesystem"
  where
  "replace_first_shebang fs p [] = Inr fs"
| "replace_first_shebang fs p ((pattern, replacement) # rest) =
     (case replace_shebang fs p pattern replacement of
        Inl e \<Rightarrow> Inl e
      | Inr (replaced, fs') \<Rightarrow>
          if replaced then Inr fs' else replace_first_shebang fs' p rest)"

text \<open>The loop over the regular files of one \<^verbatim>\<open>bin\<close> directory.\<close>

fun replace_shebangs_files :: "filesystem \<Rightarrow> path list \<Rightarrow> (pattern \<times> ustr) list \<Rightarrow> error + filesystem"
  where
  "replace_shebangs_files fs [] patterns = Inr fs"
| "replace_shebangs_files fs (p # ps) patterns =
     (if is_file fs p
      then (case replace_first_shebang fs p patterns of
              Inl e \<Rightarrow> Inl e
            | Inr fs' \<Rightarrow> replace_shebangs_files fs' ps patterns)
      else replace_shebangs_files fs ps patterns)"

text \<open>
  The \<^verbatim>\<open>bin\<close> directory of a host's install prefix:
  \<^verbatim>\<open>sources / "cross-build" / host / "prefix" / "bin"\<close>.
\<close>

definition bindir :: "path \<Rightarrow> string \<Rightarrow> path" where
  "bindir sources host = joinpath (sources @ [''cross-build'']) host @ [''prefix'', ''bin'']"

text \<open>The loop over the hosts.\<close>

fun replace_shebangs_hosts :: "filesystem \<Rightarrow> path \<Rightarrow> string list \<Rightarrow> (pattern \<times> ustr) list \<Rightarrow> error + filesystem"
  where
  "replace_shebangs_hosts fs sources [] patterns = Inr fs"
| "replace_shebangs_hosts fs sources (host # hosts) patterns =
     (case iterdir fs (bindir sources host) of
        Inl e \<Rightarrow> Inl e
      | Inr entries \<Rightarrow>
          (case replace_shebangs_files fs entries patterns of
             Inl e \<Rightarrow> Inl e
           | Inr fs' \<Rightarrow> replace_shebangs_hosts fs' sources hosts patterns))"

text \<open>
  \<^verbatim>\<open>replace_shebangs\<close>; \<open>shebang_mapping\<close> gives the compiled regular expression
  of \<^verbatim>\<open>module_conf.shebang_mapping[key]\<close>, a missing key raises \<^verbatim>\<open>KeyError\<close>.
\<close>

definition replace_shebangs :: "filesystem \<Rightarrow> path \<Rightarrow> string list \<Rightarrow> (string \<Rightarrow> pattern option) \<Rightarrow> error + filesystem"
  where
  "replace_shebangs fs sources hosts shebang_mapping =
     (case shebang_mapping ''python'' of
        None \<Rightarrow> Inl (KeyError ''python'')
      | Some python \<Rightarrow>
          (case shebang_mapping ''shell'' of
             None \<Rightarrow> Inl (KeyError ''shell'')
           | Some shell \<Rightarrow>
               replace_shebangs_hosts fs sources hosts
                 [(python, ustr_of ''#!/system/bin/python3''),
                  (shell, ustr_of ''#!/system/bin/sh'')]))"

text \<open>A regular expression without special characters: it matches its own text.\<close>

definition literal_pattern :: "string \<Rightarrow> pattern" where
  "literal_pattern s = (\<lambda>content. if prefix (ustr_of s) content then Some (length s) else None)"

text \<open>
  The regular expression \<^verbatim>\<open>a|b\<close> of two regular expressions: the first alternative
  that matches is taken.
\<close>

definition alt_pattern :: "pattern \<Rightarrow> pattern \<Rightarrow> pattern" where
  "alt_pattern a b = (\<lambda>content. case a content of Some n \<Rightarrow> Some n | None \<Rightarrow> b content)"

text \<open>The first line of a file: its bytes up to the first newline.\<close>

definition first_line :: "byte list \<Rightarrow> byte list" where
  "first_line bs = takeWhile (\<lambda>b. b \<noteq> 0x0A) bs"


text \<open>
  The inodes of the regular files that the pass takes, in its order: for each host in
  turn, the entries of its \<^verbatim>\<open>bin\<close> directory that are regular files. An inode occurs
  once for every path of the pass that leads to it.
\<close>

definition visited_dir :: "filesystem \<Rightarrow> path \<Rightarrow> inode list" where
  "visited_dir fs d =
     (case iterdir fs d of
        Inl e \<Rightarrow> []
      | Inr entries \<Rightarrow>
          concat (map (\<lambda>p. case tree fs p of Some (File i) \<Rightarrow> [i] | _ \<Rightarrow> []) entries))"

definition visited :: "filesystem \<Rightarrow> path \<Rightarrow> string list \<Rightarrow> inode list" where
  "visited fs sources hosts = concat (map (\<lambda>host. visited_dir fs (bindir sources host)) hosts)"

text \<open>The bytes of an inode after a pass, when the pass has returned.\<close>

definition data_after :: "error + filesystem \<Rightarrow> inode \<Rightarrow> byte list option" where
  "data_after result i =
     (case result of
        Inl e \<Rightarrow> None
      | Inr fs' \<Rightarrow> map_option data (store fs' i))"





definition example_mapping :: "pattern \<Rightarrow> string \<Rightarrow> pattern option" where
  "example_mapping python = [''python'' \<mapsto> python, ''shell'' \<mapsto> literal_pattern ''#!/bin/sh'']"

subsection \<open>Source acquisition\<close>

text \<open>\<^verbatim>\<open>Path(s).name\<close>: the last component of a path, empty when there is none.\<close>

definition path_name :: "string \<Rightarrow> string" where
  "path_name s =
     (case path_parts s of
        [] \<Rightarrow> []
      | c # cs \<Rightarrow> last (c # cs))"

text \<open>
  The regular expression \<^verbatim>\<open>(\d+\.\d+\.\d+)\<close>. Among the characters below code point
  256, \<^verbatim>\<open>\d\<close> matches the ten ASCII digits. A match starting at the first character
  takes each run of digits whole: a greedy \<^verbatim>\<open>\d+\<close> followed by \<^verbatim>\<open>\.\<close> cannot give
  back a digit, since the character after a shorter run is a digit.
\<close>

definition isdigit :: "char \<Rightarrow> bool" where
  "isdigit c = (c \<in> set ''0123456789'')"

definition match_version :: "string \<Rightarrow> string option" where
  "match_version s =
     (let a = takeWhile isdigit s in
      if a = [] then None
      else (case dropWhile isdigit s of
              d1 # r1 \<Rightarrow>
                if d1 \<noteq> CHR ''.'' then None
                else (let b = takeWhile isdigit r1 in
                      if b = [] then None
                      else (case dropWhile isdigit r1 of
                              d2 # r2 \<Rightarrow>
                                if d2 \<noteq> CHR ''.'' then None
                                else (let c = takeWhile isdigit r2 in
                                      if c = [] then None
                                      else Some (a @ ''.'' @ b @ ''.'' @ c))
                            | [] \<Rightarrow> None))
            | [] \<Rightarrow> None))"

text \<open>
  \<^verbatim>\<open>re.findall\<close> for this expression: the matches from left to right, the search
  resuming after each match; \<open>skip\<close> counts the characters of the last match that are
  still to be passed.
\<close>

fun findall_from :: "nat \<Rightarrow> string \<Rightarrow> string list" where
  "findall_from skip [] = []"
| "findall_from skip (c # cs) =
     (if 0 < skip then findall_from (skip - 1) cs
      else (case match_version (c # cs) of
              Some v \<Rightarrow> v # findall_from (length v - 1) cs
            | None \<Rightarrow> findall_from 0 cs))"

definition findall_version :: "string \<Rightarrow> string list" where
  "findall_version s = findall_from 0 s"

text \<open>
  The version of \<^verbatim>\<open>get_cpython\<close>: \<^verbatim>\<open>re.findall(...)[0]\<close>, and
  \<^verbatim>\<open>"unknown"\<close> on \<^verbatim>\<open>IndexError\<close>.
\<close>

definition resolve_version :: "string \<Rightarrow> string" where
  "resolve_version sources_url =
     (case findall_version (path_name sources_url) of
        [] \<Rightarrow> ''unknown''
      | v # vs \<Rightarrow> v)"

text \<open>
  The expression as the specification words it: three non-empty runs of digits separated
  by dots.
\<close>

definition is_version :: "string \<Rightarrow> bool" where
  "is_version v =
     (\<exists>a b c. v = a @ ''.'' @ b @ ''.'' @ c \<and> a \<noteq> [] \<and> b \<noteq> [] \<and> c \<noteq> []
        \<and> (\<forall>x\<in>set a. isdigit x) \<and> (\<forall>x\<in>set b. isdigit x) \<and> (\<forall>x\<in>set c. isdigit x))"

subsection \<open>External processes and the state of a run\<close>

text \<open>
  The state of a run is the file system and the commands given to
  \<^verbatim>\<open>subprocess.run\<close> so far. What lies outside the script is a parameter: the project
  root, \<^verbatim>\<open>os.environ\<close>, what a command does to the file system and the status it
  exits with, and what extracting a tar archive into a directory does.
\<close>

type_synonym environment = "(string \<times> string) list"

record state =
  files :: filesystem
  commands :: "string list list"

record world =
  project_root :: path
  environ :: environment
  execute :: "string list \<Rightarrow> environment \<Rightarrow> filesystem \<Rightarrow> int \<times> filesystem"
  extractall :: "path \<Rightarrow> path \<Rightarrow> filesystem \<Rightarrow> error + filesystem"


definition BUILD_DIR :: "world \<Rightarrow> path" where
  "BUILD_DIR w = project_root w @ [''build'']"

text \<open>\<^verbatim>\<open>str(path)\<close> of an absolute path.\<close>

definition str_path :: "path \<Rightarrow> string" where
  "str_path p = concat (map (\<lambda>c. CHR ''/'' # c) p)"

text \<open>
  \<^verbatim>\<open>run(cmd, env=env, check=check)\<close>: the environment defaults to a copy of
  \<^verbatim>\<open>os.environ\<close>; with \<^verbatim>\<open>check\<close> a non-zero exit status raises
  \<^verbatim>\<open>CalledProcessError\<close>.
\<close>

definition run :: "world \<Rightarrow> string list \<Rightarrow> environment option \<Rightarrow> bool \<Rightarrow> state \<Rightarrow> error + (int \<times> state)"
  where
  "run w cmd env check st =
     (let env' = (case env of None \<Rightarrow> environ w | Some e \<Rightarrow> e);
          result = execute w cmd env' (files st);
          st' = \<lparr>files = snd result, commands = commands st @ [cmd]\<rparr>
      in if check \<and> fst result \<noteq> 0 then Inl (CalledProcessError cmd (fst result))
         else Inr (fst result, st'))"

definition download :: "world \<Rightarrow> string \<Rightarrow> path \<Rightarrow> state \<Rightarrow> error + (int \<times> state)" where
  "download w url output st =
     run w [''curl'', ''-Lf'', ''--retry'', ''5'', ''--retry-all-errors'', ''-o'',
            str_path output, url] None True st"

text \<open>A path taken out of the file system and out of the listing of its directory.\<close>

definition detach :: "filesystem \<Rightarrow> path \<Rightarrow> filesystem" where
  "detach fs p =
     (let t = (tree fs)(p := None)
      in (case t (butlast p) of
            Some (Dir names) \<Rightarrow>
              fs\<lparr>tree := t(butlast p \<mapsto> Dir (removeAll (last p) names))\<rparr>
          | _ \<Rightarrow> fs\<lparr>tree := t\<rparr>))"

text \<open>\<^verbatim>\<open>path.unlink()\<close>: the name is removed, the inode stays in the store.\<close>

definition unlink :: "filesystem \<Rightarrow> path \<Rightarrow> error + filesystem" where
  "unlink fs p =
     (case tree fs p of
        Some (File i) \<Rightarrow> Inr (detach fs p)
      | Some (Dir names) \<Rightarrow> Inl (OSError ''Is a directory'')
      | None \<Rightarrow> Inl (OSError ''No such file or directory''))"

text \<open>
  \<^verbatim>\<open>get_cpython\<close>: the result is the source directory, the version and the state
  after the call.
\<close>

definition get_cpython :: "world \<Rightarrow> string \<Rightarrow> state \<Rightarrow> error + ((path \<times> string) \<times> state)" where
  "get_cpython w sources_url st =
     (let filename = path_name sources_url;
          version = resolve_version sources_url
      in (case iterdir (files st) (BUILD_DIR w) of
            Inl e \<Rightarrow> Inl e
          | Inr entries \<Rightarrow>
              (case find (\<lambda>entry. is_dir (files st) entry \<and> contains version (last entry))
                      entries of
                 Some entry \<Rightarrow> Inr ((entry, version), st)
               | None \<Rightarrow>
                   (let output = joinpath (BUILD_DIR w) filename
                    in (case download w sources_url output st of
                          Inl e \<Rightarrow> Inl e
                        | Inr (returncode, st1) \<Rightarrow>
                            (case extractall w output (BUILD_DIR w) (files st1) of
                               Inl e \<Rightarrow> Inl e
                             | Inr fs2 \<Rightarrow>
                                 (case unlink fs2 output of
                                    Inl e \<Rightarrow> Inl e
                                  | Inr fs3 \<Rightarrow>
                                      (case iterdir fs3 (BUILD_DIR w) of
                                         Inl e \<Rightarrow> Inl e
                                       | Inr [] \<Rightarrow> Inl StopIteration
                                       | Inr (first # rest) \<Rightarrow>
                                           Inr ((first, version),
                                                st1\<lparr>files := fs3\<rparr>)))))))))"

text \<open>
  A world in which every command succeeds and changes nothing, and a build directory
  that holds a text file and an extracted source tree, both named after version 3.13.0.
\<close>

definition example_world :: world where
  "example_world =
     \<lparr>project_root = [''home'', ''py2droid''],
      environ = [(''ANDROID_HOME'', ''/opt/android'')],
      execute = (\<lambda>cmd env fs. (0, fs)),
      extractall = (\<lambda>archive dir fs. Inr fs)\<rparr>"

definition example_build_fs :: filesystem where
  "example_build_fs =
     \<lparr>tree =
        [[''home'', ''py2droid'', ''build''] \<mapsto> Dir [''notes-3.13.0.txt'', ''Python-3.13.0''],
         [''home'', ''py2droid'', ''build'', ''notes-3.13.0.txt''] \<mapsto> File 0,
         [''home'', ''py2droid'', ''build'', ''Python-3.13.0''] \<mapsto> Dir []],
      store = [0 \<mapsto> \<lparr>data = [], readable = True, writable = True\<rparr>]\<rparr>"

subsection \<open>The build driver\<close>












section \<open>Properties\<close>

subsection \<open>The architecture mapping\<close>

lemma arch_mapping_keys:
  "map fst arch_mapping =
     [''aarch64-linux-android'', ''armv7a-linux-androideabi'', ''arm-linux-androideabi'',
      ''x86_64-linux-android'', ''i686-linux-android'']"
  by (simp add: arch_mapping_def)

lemma arch_of_unknown:
  assumes "host \<notin> set (map fst arch_mapping)"
  shows "arch_of host = ''unknown''"
proof -
  from assms have "map_of arch_mapping host = None"
    by (simp add: map_of_eq_None_iff)
  then show ?thesis by (simp add: arch_of_def)
qed

text \<open>
  C9. The host-triple to architecture-code mapping has exactly five entries, with
  pairwise different host triples, mapping aarch64-linux-android to arm64,
  armv7a-linux-androideabi and arm-linux-androideabi to arm, x86_64-linux-android to x64
  and i686-linux-android to x86; every host triple that is not one of the five gets the
  architecture code "unknown".
\<close>

theorem arch_mapping_five_entries:
  "length arch_mapping = 5
   \<and> distinct (map fst arch_mapping)
   \<and> arch_of ''aarch64-linux-android'' = ''arm64''
   \<and> arch_of ''armv7a-linux-androideabi'' = ''arm''
   \<and> arch_of ''arm-linux-androideabi'' = ''arm''
   \<and> arch_of ''x86_64-linux-android'' = ''x64''
   \<and> arch_of ''i686-linux-android'' = ''x86''
   \<and> (\<forall>host. host \<notin> {''aarch64-linux-android'', ''armv7a-linux-androideabi'',
                        ''arm-linux-androideabi'', ''x86_64-linux-android'',
                        ''i686-linux-android''}
          \<longrightarrow> arch_of host = ''unknown'')"
proof -
  have unk: "\<forall>host. host \<notin> {''aarch64-linux-android'', ''armv7a-linux-androideabi'',
                        ''arm-linux-androideabi'', ''x86_64-linux-android'',
                        ''i686-linux-android''}
          \<longrightarrow> arch_of host = ''unknown''"
  proof (intro allI impI)
    fix host :: string
    assume "host \<notin> {''aarch64-linux-android'', ''armv7a-linux-androideabi'',
                        ''arm-linux-androideabi'', ''x86_64-linux-android'',
                        ''i686-linux-android''}"
    then have "host \<notin> set (map fst arch_mapping)"
      unfolding arch_mapping_keys by simp
    then show "arch_of host = ''unknown''" by (rule arch_of_unknown)
  qed
  have len: "length arch_mapping = 5" by (simp add: arch_mapping_def)
  have dist: "distinct (map fst arch_mapping)" unfolding arch_mapping_keys by simp
  have known: "arch_of ''aarch64-linux-android'' = ''arm64''"
    "arch_of ''armv7a-linux-androideabi'' = ''arm''"
    "arch_of ''arm-linux-androideabi'' = ''arm''"
    "arch_of ''x86_64-linux-android'' = ''x64''"
    "arch_of ''i686-linux-android'' = ''x86''"
    by (simp_all add: arch_of_def arch_mapping_def)
  show ?thesis
    using len dist known unk by (intro conjI)
qed

theorem arch_mapping_five_entries_witness:
  "''riscv64-linux-android'' \<notin> {''aarch64-linux-android'', ''armv7a-linux-androideabi'',
                        ''arm-linux-androideabi'', ''x86_64-linux-android'',
                        ''i686-linux-android''}
   \<and> arch_of ''riscv64-linux-android'' = ''unknown''"
proof -
  have h: "''riscv64-linux-android'' \<notin> {''aarch64-linux-android'',
             ''armv7a-linux-androideabi'', ''arm-linux-androideabi'',
             ''x86_64-linux-android'', ''i686-linux-android''}"
    by simp
  have "arch_of ''riscv64-linux-android'' = ''unknown''"
    using arch_mapping_five_entries h by (elim conjE allE impE)
  with h show ?thesis by (rule conjI)
qed

subsection \<open>The module descriptor\<close>

lemma process_module_prop_loop_map:
  "process_module_prop_loop v a ls acc =
     acc @ map (\<lambda>line. if startswith line ''description''
                     then ''description=CPython '' @ v @ '' for '' @ upper a
                     else strip line) ls"
  by (induction ls arbitrary: acc) simp_all

lemma isspace_LF: "isspace LF"
  by (simp add: isspace_def whitespace_def LF_def)

lemma strip_Nil: "strip [] = []"
  by (simp add: strip_def)

lemma strip_snoc_space:
  assumes "isspace c"
  shows "strip (s @ [c]) = strip s"
proof (cases "\<forall>x\<in>set s. isspace x")
  case True
  with assms have all: "\<forall>x\<in>set (s @ [c]). isspace x"
    by simp
  have "dropWhile isspace s = []"
    using True by (simp only: dropWhile_eq_Nil_conv)
  moreover have "dropWhile isspace (s @ [c]) = []"
    using all by (simp only: dropWhile_eq_Nil_conv)
  ultimately show ?thesis unfolding strip_def by (simp only:)
next
  case False
  then obtain x where "x \<in> set s" "\<not> isspace x"
    by blast
  then have "dropWhile isspace (s @ [c]) = dropWhile isspace s @ [c]"
    by (rule dropWhile_append1)
  with assms show ?thesis by (simp add: strip_def)
qed

lemma strip_id:
  assumes "s \<noteq> []" "\<not> isspace (hd s)" "\<not> isspace (last s)"
  shows "strip s = s"
proof -
  from assms(1,2) have "dropWhile isspace s = s"
    by (cases s) simp_all
  moreover from assms(1,3) have "dropWhile isspace (rev s) = rev s"
    by (cases "rev s") (simp_all add: last_rev [symmetric] hd_rev)
  ultimately show ?thesis by (simp add: strip_def)
qed

lemma strip_clean:
  assumes "clean_line line"
  shows "strip line = chomp line"
proof (cases "line \<noteq> [] \<and> last line = LF")
  case True
  then have line: "line = butlast line @ [LF]" and ch: "chomp line = butlast line"
    using append_butlast_last_id [of line] by (simp_all add: chomp_def)
  have "strip line = strip (butlast line)"
    using strip_snoc_space [OF isspace_LF, of "butlast line"] line by simp
  also have "\<dots> = butlast line"
  proof (cases "butlast line = []")
    case True
    then show ?thesis by (simp add: strip_Nil)
  next
    case False
    with assms ch show ?thesis by (simp add: clean_line_def strip_id)
  qed
  finally show ?thesis using ch by simp
next
  case False
  then have ch: "chomp line = line" by (auto simp add: chomp_def)
  show ?thesis
  proof (cases "line = []")
    case True
    then show ?thesis using ch by (simp add: strip_Nil)
  next
    case False
    with assms ch show ?thesis by (simp add: clean_line_def strip_id)
  qed
qed

lemma last_join:
  assumes "xs \<noteq> []" "last xs \<noteq> []"
  shows "join sep xs \<noteq> [] \<and> last (join sep xs) = last (last xs)"
  using assms by (induction sep xs rule: join.induct) simp_all

lemma strip_last_nonspace:
  assumes "strip s \<noteq> []"
  shows "\<not> isspace (last (strip s))"
proof -
  let ?r = "dropWhile isspace (rev (dropWhile isspace s))"
  from assms have ne: "?r \<noteq> []" by (simp add: strip_def)
  then have "\<not> isspace (hd ?r)" by (rule hd_dropWhile)
  moreover have "last (strip s) = hd ?r"
    using ne by (simp add: strip_def last_rev)
  ultimately show ?thesis by simp
qed

text \<open>
  C1 (as amended). The rewritten descriptor is the lines of the descriptor joined with a
  single newline, where every line starting with \<^verbatim>\<open>description\<close> is replaced by
  \<^verbatim>\<open>description=CPython {version} for {ARCH}\<close> (the architecture upper-cased) and
  every other line is stripped of its leading and trailing whitespace, its line
  terminator included. When no other line has surrounding whitespace, this is the
  descriptor with its other lines passed through verbatim. When the last line is not a
  description line and not blank, the result does not end in a newline.
\<close>

theorem process_module_prop_rewrites:
  "process_module_prop python_ver arch content =
     join [LF]
       (map (\<lambda>line. if startswith line ''description''
                     then ''description=CPython '' @ python_ver @ '' for '' @ upper arch
                     else strip line)
            (text_lines content))
   \<and> ((\<forall>line \<in> set (text_lines content).
          \<not> startswith line ''description'' \<longrightarrow> clean_line line)
        \<longrightarrow> process_module_prop python_ver arch content
              = spec_process_module_prop python_ver arch content)
   \<and> (text_lines content \<noteq> []
        \<and> \<not> startswith (last (text_lines content)) ''description''
        \<and> strip (last (text_lines content)) \<noteq> []
        \<longrightarrow> process_module_prop python_ver arch content \<noteq> []
            \<and> last (process_module_prop python_ver arch content) \<noteq> LF)"
proof (intro conjI impI)
  let ?f = "\<lambda>line. if startswith line ''description''
                     then ''description=CPython '' @ python_ver @ '' for '' @ upper arch
                     else strip line"
  show eq: "process_module_prop python_ver arch content = join [LF] (map ?f (text_lines content))"
    by (simp add: process_module_prop_def process_module_prop_loop_map)
  {
    assume "\<forall>line \<in> set (text_lines content).
          \<not> startswith line ''description'' \<longrightarrow> clean_line line"
    then have "map ?f (text_lines content)
      = map (\<lambda>line. if startswith line ''description''
                     then ''description=CPython '' @ python_ver @ '' for '' @ upper arch
                     else chomp line) (text_lines content)"
      by (intro map_cong refl) (simp add: strip_clean)
    then show "process_module_prop python_ver arch content
              = spec_process_module_prop python_ver arch content"
      unfolding eq spec_process_module_prop_def by (rule arg_cong)
  }
  {
    assume a: "text_lines content \<noteq> []
        \<and> \<not> startswith (last (text_lines content)) ''description''
        \<and> strip (last (text_lines content)) \<noteq> []"
    then have l: "last (map ?f (text_lines content)) = strip (last (text_lines content))"
      by (simp add: last_map)
    with a have "join [LF] (map ?f (text_lines content)) \<noteq> [] \<and>
      last (join [LF] (map ?f (text_lines content))) = last (strip (last (text_lines content)))"
      using last_join [of "map ?f (text_lines content)" "[LF]"] by simp
    moreover have "\<not> isspace (last (strip (last (text_lines content))))"
      using a by (simp add: strip_last_nonspace)
    ultimately show "process_module_prop python_ver arch content \<noteq> []"
      and "last (process_module_prop python_ver arch content) \<noteq> LF"
      unfolding eq using isspace_LF by auto
  }
qed

lemmas descriptor_eval = process_module_prop_def spec_process_module_prop_def text_lines_def LF_def CR_def startswith_def strip_def isspace_def whitespace_def upper_def upper_char_def chomp_def clean_line_def

theorem process_module_prop_rewrites_witness:
  "list_all (\<lambda>line. \<not> startswith line ''description'' \<longrightarrow> clean_line line)
     (text_lines (''name=foo'' @ [LF] @ ''description=old'' @ [LF] @ ''version=1.0'' @ [LF]))
   \<and> text_lines (''name=foo'' @ [LF] @ ''description=old'' @ [LF] @ ''version=1.0'' @ [LF]) \<noteq> []
   \<and> \<not> startswith (last (text_lines (''name=foo'' @ [LF] @ ''description=old'' @ [LF] @ ''version=1.0'' @ [LF]))) ''description''
   \<and> strip (last (text_lines (''name=foo'' @ [LF] @ ''description=old'' @ [LF] @ ''version=1.0'' @ [LF]))) \<noteq> []
   \<and> process_module_prop ''3.12.1'' ''arm64'' (''name=foo'' @ [LF] @ ''description=old'' @ [LF] @ ''version=1.0'' @ [LF])
       = spec_process_module_prop ''3.12.1'' ''arm64'' (''name=foo'' @ [LF] @ ''description=old'' @ [LF] @ ''version=1.0'' @ [LF])
   \<and> last (process_module_prop ''3.12.1'' ''arm64'' (''name=foo'' @ [LF] @ ''description=old'' @ [LF] @ ''version=1.0'' @ [LF])) \<noteq> LF"
proof -
  let ?c = "''name=foo'' @ [LF] @ ''description=old'' @ [LF] @ ''version=1.0'' @ [LF]"
  have tl: "text_lines ?c = [''name=foo'' @ [LF], ''description=old'' @ [LF], ''version=1.0'' @ [LF]]"
    by (simp add: text_lines_def LF_def CR_def)
  have h1: "\<forall>line \<in> set (text_lines ?c). \<not> startswith line ''description'' \<longrightarrow> clean_line line"
    unfolding tl by (simp add: descriptor_eval)
  have h2: "text_lines ?c \<noteq> [] \<and> \<not> startswith (last (text_lines ?c)) ''description''
     \<and> strip (last (text_lines ?c)) \<noteq> []"
    unfolding tl by (simp add: descriptor_eval)
  note t = process_module_prop_rewrites [of "''3.12.1''" "''arm64''" ?c]
  from h1 have c1: "process_module_prop ''3.12.1'' ''arm64'' ?c
       = spec_process_module_prop ''3.12.1'' ''arm64'' ?c"
    by (rule t [THEN conjunct2, THEN conjunct1, THEN mp])
  from h2 have c2: "process_module_prop ''3.12.1'' ''arm64'' ?c \<noteq> []
            \<and> last (process_module_prop ''3.12.1'' ''arm64'' ?c) \<noteq> LF"
    by (rule t [THEN conjunct2, THEN conjunct2, THEN mp])
  from h1 have h1': "list_all (\<lambda>line. \<not> startswith line ''description'' \<longrightarrow> clean_line line)
     (text_lines ?c)"
    by (simp only: list_all_iff)
  from h1' h2 c1 c2 show ?thesis by (intro conjI) (elim conjE, assumption)+
qed

theorem process_module_prop_verbatim_counterexample:
  "process_module_prop ''3.12.1'' ''arm64'' (''  name=foo '' @ [LF] @ ''description=old'')
     = ''name=foo'' @ [LF] @ ''description=CPython 3.12.1 for ARM64''
   \<and> spec_process_module_prop ''3.12.1'' ''arm64'' (''  name=foo '' @ [LF] @ ''description=old'')
     = ''  name=foo '' @ [LF] @ ''description=CPython 3.12.1 for ARM64''
   \<and> process_module_prop ''3.12.1'' ''arm64'' (''  name=foo '' @ [LF] @ ''description=old'')
     \<noteq> spec_process_module_prop ''3.12.1'' ''arm64'' (''  name=foo '' @ [LF] @ ''description=old'')"
  by (simp add: descriptor_eval)

subsection \<open>getprops and the constructor of ModuleBuilder\<close>

lemma contains_partition_first:
  "sep \<noteq> [] \<Longrightarrow> contains sep line \<longleftrightarrow> partition_first sep line \<noteq> None"
  by (induction line) (auto split: option.splits)

lemma getprops_loop_filter:
  assumes "sep \<noteq> []"
  shows "getprops_loop keys sep ls vals =
     Inr (vals @ map (prop_value sep)
            (filter (\<lambda>line. case prop_key sep line of None \<Rightarrow> False | Some k \<Rightarrow> k \<in> set keys) ls))"
proof (induction ls arbitrary: vals)
  case Nil
  show ?case by simp
next
  case (Cons line rest)
  show ?case
  proof (cases "partition_first sep line")
    case None
    with assms have "\<not> contains sep line"
      by (simp add: contains_partition_first)
    with None show ?thesis
      by (simp add: Cons.IH prop_key_def)
  next
    case (Some kv)
    obtain k v where kv: "kv = (k, v)" by (cases kv)
    from Some assms have c: "contains sep line"
      by (simp add: contains_partition_first)
    from Some kv assms have s: "split1 sep line = Inr [k, v]"
      by (simp add: split1_def)
    show ?thesis
      using c s Some kv by (simp add: Cons.IH prop_key_def prop_value_def)
  qed
qed

lemma unpack2_Inr:
  "unpack2 vals = Inr (n, v) \<longleftrightarrow> vals = [n, v]"
  by (cases vals rule: unpack2.cases) auto

lemma unpack2_Inl:
  "length vals \<noteq> 2 \<Longrightarrow> \<exists>msg. unpack2 vals = Inl (ValueError msg)"
  by (cases vals rule: unpack2.cases) auto

text \<open>
  C10. \<^verbatim>\<open>getprops\<close> returns one value per matching line, in the order of the lines
  of the property file (not of the requested keys), duplicates included. The
  constructor of \<^verbatim>\<open>ModuleBuilder\<close> therefore gets a name and a version exactly when
  there are exactly two matching lines, the name being the value of the first and the
  version the value of the second; any other number of matching lines raises the
  unpacking \<^verbatim>\<open>ValueError\<close>; and when the matching lines are one \<^verbatim>\<open>name=\<close> line
  followed by one \<^verbatim>\<open>version=\<close> line, name and version are the values of these lines.
\<close>

theorem getprops_file_order:
  "(sep \<noteq> [] \<longrightarrow>
      getprops (Some content) keys sep
        = Inr (map (prop_value sep) (matching_lines keys sep content)))
   \<and> (module_name_version (Some content) = Inr (n, v)
        \<longleftrightarrow> (\<exists>l1 l2. matching_lines [''name'', ''version''] ''='' content = [l1, l2]
                     \<and> n = prop_value ''='' l1 \<and> v = prop_value ''='' l2))
   \<and> (length (matching_lines [''name'', ''version''] ''='' content) \<noteq> 2
        \<longrightarrow> (\<exists>msg. module_name_version (Some content) = Inl (ValueError msg)))
   \<and> (map (prop_key ''='') (matching_lines [''name'', ''version''] ''='' content)
          = [Some ''name'', Some ''version'']
        \<longrightarrow> (\<exists>l1 l2. matching_lines [''name'', ''version''] ''='' content = [l1, l2]
                     \<and> prop_key ''='' l1 = Some ''name''
                     \<and> prop_key ''='' l2 = Some ''version''
                     \<and> module_name_version (Some content)
                         = Inr (prop_value ''='' l1, prop_value ''='' l2)))"
proof (intro conjI impI)
  let ?ms = "matching_lines [''name'', ''version''] ''='' content"
  have gp: "getprops (Some content) keys s = Inr (map (prop_value s) (matching_lines keys s content))"
    if "s \<noteq> []" for s keys
    using that by (simp add: getprops_def getprops_loop_filter matching_lines_def)
  show "getprops (Some content) keys sep
        = Inr (map (prop_value sep) (matching_lines keys sep content))" if "sep \<noteq> []"
    using that by (rule gp)
  have mnv: "module_name_version (Some content) = unpack2 (map (prop_value ''='') ?ms)"
    by (simp add: module_name_version_def gp)
  show "module_name_version (Some content) = Inr (n, v)
        \<longleftrightarrow> (\<exists>l1 l2. ?ms = [l1, l2] \<and> n = prop_value ''='' l1 \<and> v = prop_value ''='' l2)"
    unfolding mnv unpack2_Inr by (auto simp add: map_eq_Cons_conv)
  show "\<exists>msg. module_name_version (Some content) = Inl (ValueError msg)"
    if "length ?ms \<noteq> 2"
    unfolding mnv using that by (intro unpack2_Inl) simp
  show "\<exists>l1 l2. ?ms = [l1, l2] \<and> prop_key ''='' l1 = Some ''name''
                     \<and> prop_key ''='' l2 = Some ''version''
                     \<and> module_name_version (Some content)
                         = Inr (prop_value ''='' l1, prop_value ''='' l2)"
    if "map (prop_key ''='') ?ms = [Some ''name'', Some ''version'']"
  proof -
    from that obtain l1 l2 where "?ms = [l1, l2]" "prop_key ''='' l1 = Some ''name''"
      "prop_key ''='' l2 = Some ''version''"
      by (auto simp add: map_eq_Cons_conv)
    then show ?thesis unfolding mnv by simp
  qed
qed

lemmas getprops_eval = getprops_def  module_name_version_def matching_lines_def prop_key_def prop_value_def text_lines_def LF_def CR_def strip_def isspace_def whitespace_def split1_def


theorem getprops_file_order_witness:
  "''='' \<noteq> []
   \<and> getprops (Some (''version=1.0\<newline>name=foo\<newline>'')) [''name'', ''version''] ''=''
       = Inr [''1.0'', ''foo'']
   \<and> module_name_version (Some (''version=1.0\<newline>name=foo\<newline>''))
       = Inr (''1.0'', ''foo'')
   \<and> length (matching_lines [''name'', ''version''] ''=''
               (''name=foo\<newline>name=bar\<newline>version=1.0\<newline>'')) \<noteq> 2
   \<and> (\<exists>msg. module_name_version
               (Some (''name=foo\<newline>name=bar\<newline>version=1.0\<newline>''))
             = Inl (ValueError msg))
   \<and> map (prop_key ''='')
         (matching_lines [''name'', ''version''] ''=''
            (''name=foo\<newline>description=old\<newline>version = 1.0 \<newline>''))
       = [Some ''name'', Some ''version'']
   \<and> module_name_version
         (Some (''name=foo\<newline>description=old\<newline>version = 1.0 \<newline>''))
       = Inr (''foo'', ''1.0'')"
proof -
  let ?kv = "[''name'', ''version'']"
  let ?c1 = "''version=1.0\<newline>name=foo\<newline>''"
  let ?c2 = "''name=foo\<newline>description=old\<newline>version = 1.0 \<newline>''"
  let ?c3 = "''name=foo\<newline>name=bar\<newline>version=1.0\<newline>''"
  have sep: "''='' \<noteq> []" by simp
  have m1: "matching_lines ?kv ''='' ?c1 = [''version=1.0\<newline>'', ''name=foo\<newline>'']"
    by (simp add: getprops_eval)
  have m2: "matching_lines ?kv ''='' ?c2 = [''name=foo\<newline>'', ''version = 1.0 \<newline>'']"
    by (simp add: getprops_eval)
  have m3: "matching_lines ?kv ''='' ?c3
              = [''name=foo\<newline>'', ''name=bar\<newline>'', ''version=1.0\<newline>'']"
    by (simp add: getprops_eval)
  have v: "prop_value ''='' (''version=1.0\<newline>'') = ''1.0''"
    "prop_value ''='' (''name=foo\<newline>'') = ''foo''"
    "prop_value ''='' (''version = 1.0 \<newline>'') = ''1.0''"
    by (simp_all add: getprops_eval)
  have k: "prop_key ''='' (''name=foo\<newline>'') = Some ''name''"
    "prop_key ''='' (''version = 1.0 \<newline>'') = Some ''version''"
    by (simp_all add: getprops_eval)
  have g1: "getprops (Some ?c1) ?kv ''='' = Inr [''1.0'', ''foo'']"
    using getprops_file_order [of "''=''" ?c1 ?kv "''1.0''" "''foo''", THEN conjunct1, THEN mp, OF sep]
    unfolding m1 by (simp add: v)
  have n1: "module_name_version (Some ?c1) = Inr (''1.0'', ''foo'')"
    using getprops_file_order [of "''=''" ?c1 ?kv "''1.0''" "''foo''", THEN conjunct2, THEN conjunct1]
    unfolding m1 by (simp add: v)
  have l3: "length (matching_lines ?kv ''='' ?c3) \<noteq> 2"
    unfolding m3 by simp
  have n3: "\<exists>msg. module_name_version (Some ?c3) = Inl (ValueError msg)"
    using getprops_file_order [of "''=''" ?c3 ?kv "''foo''" "''1.0''",
        THEN conjunct2, THEN conjunct2, THEN conjunct1, THEN mp, OF l3] .
  have k2: "map (prop_key ''='') (matching_lines ?kv ''='' ?c2) = [Some ''name'', Some ''version'']"
    unfolding m2 by (simp add: k)
  have n2: "module_name_version (Some ?c2) = Inr (''foo'', ''1.0'')"
    using getprops_file_order [of "''=''" ?c2 ?kv "''foo''" "''1.0''",
        THEN conjunct2, THEN conjunct2, THEN conjunct2, THEN mp, OF k2]
    unfolding m2 by (auto simp add: v)
  from sep g1 n1 l3 n3 k2 n2 show ?thesis by (intro conjI)
qed

subsection \<open>Binary files\<close>











subsection \<open>The version of the sources\<close>

lemma takeWhile_stop:
  assumes "\<forall>x\<in>set a. P x" "\<not> P y"
  shows "takeWhile P (a @ y # r) = a" and "dropWhile P (a @ y # r) = y # r"
  using assms by (induction a) simp_all

lemma not_isdigit_dot: "\<not> isdigit (CHR ''.'')"
  by (simp add: isdigit_def)

lemma match_version_sound:
  assumes "match_version s = Some v"
  shows "is_version v \<and> prefix v s"
proof -
  let ?a = "takeWhile isdigit s"
  from assms have a: "?a \<noteq> []"
    by (auto simp add: match_version_def Let_def split: if_splits)
  with assms obtain r1 where r1: "dropWhile isdigit s = CHR ''.'' # r1"
    by (auto simp add: match_version_def Let_def split: if_splits list.splits)
  let ?b = "takeWhile isdigit r1"
  from assms a r1 have b: "?b \<noteq> []"
    by (auto simp add: match_version_def Let_def split: if_splits)
  with assms a r1 obtain r2 where r2: "dropWhile isdigit r1 = CHR ''.'' # r2"
    by (auto simp add: match_version_def Let_def split: if_splits list.splits)
  let ?c = "takeWhile isdigit r2"
  from assms a r1 b r2 have c: "?c \<noteq> []" and v: "v = ?a @ ''.'' @ ?b @ ''.'' @ ?c"
    by (auto simp add: match_version_def Let_def split: if_splits)
  have d: "\<forall>x\<in>set ?a. isdigit x" "\<forall>x\<in>set ?b. isdigit x" "\<forall>x\<in>set ?c. isdigit x"
    by (auto dest: set_takeWhileD)
  from a b c d v have "is_version v"
    unfolding is_version_def by blast
  moreover have "s = ?a @ dropWhile isdigit s" by simp
  then have "s = ?a @ CHR ''.'' # r1" using r1 by simp
  moreover have "r1 = ?b @ dropWhile isdigit r1" by simp
  then have "r1 = ?b @ CHR ''.'' # r2" using r2 by simp
  moreover have "r2 = ?c @ dropWhile isdigit r2" by simp
  ultimately have "s = v @ dropWhile isdigit r2"
    unfolding v by (metis append.assoc append_Cons append_Nil)
  then have "prefix v s" by (metis prefixI)
  with \<open>is_version v\<close> show ?thesis by simp
qed

lemma match_version_complete:
  assumes "is_version v'"
  shows "\<exists>v. match_version (v' @ t) = Some v \<and> prefix v' v"
proof -
  from assms obtain a b c where v': "v' = a @ ''.'' @ b @ ''.'' @ c"
    and ne: "a \<noteq> []" "b \<noteq> []" "c \<noteq> []"
    and d: "\<forall>x\<in>set a. isdigit x" "\<forall>x\<in>set b. isdigit x" "\<forall>x\<in>set c. isdigit x"
    unfolding is_version_def by blast
  let ?r1 = "b @ CHR ''.'' # c @ t"
  let ?r2 = "c @ t"
  have s: "v' @ t = a @ CHR ''.'' # ?r1" by (simp add: v')
  have ta: "takeWhile isdigit (v' @ t) = a" "dropWhile isdigit (v' @ t) = CHR ''.'' # ?r1"
    unfolding s using d(1) not_isdigit_dot by (rule takeWhile_stop)+
  have tb: "takeWhile isdigit ?r1 = b" "dropWhile isdigit ?r1 = CHR ''.'' # ?r2"
    using d(2) not_isdigit_dot by (rule takeWhile_stop)+
  have tc: "takeWhile isdigit ?r2 = c @ takeWhile isdigit t"
    using d(3) by (simp add: takeWhile_append2)
  have "match_version (v' @ t) = Some (a @ ''.'' @ b @ ''.'' @ c @ takeWhile isdigit t)"
    using ne by (simp add: match_version_def Let_def ta tb tc)
  moreover have "prefix v' (a @ ''.'' @ b @ ''.'' @ c @ takeWhile isdigit t)"
    unfolding v' by (simp add: prefix_def)
  ultimately show ?thesis by blast
qed

lemma findall_from_Nil:
  assumes "findall_from 0 s = []"
  shows "match_version (drop i s) = None"
  using assms
proof (induction s arbitrary: i)
  case Nil
  show ?case by (simp add: match_version_def)
next
  case (Cons c cs)
  from Cons.prems have m: "match_version (c # cs) = None" and r: "findall_from 0 cs = []"
    by (auto split: option.splits)
  show ?case
  proof (cases i)
    case 0
    with m show ?thesis by simp
  next
    case (Suc j)
    with Cons.IH [OF r, of j] show ?thesis by simp
  qed
qed

lemma findall_from_Cons:
  assumes "findall_from 0 s = v # vs"
  shows "\<exists>pre post. s = pre @ post \<and> match_version post = Some v
           \<and> (\<forall>i<length pre. match_version (drop i s) = None)"
  using assms
proof (induction s)
  case Nil
  then show ?case by simp
next
  case (Cons c cs)
  show ?case
  proof (cases "match_version (c # cs)")
    case (Some w)
    with Cons.prems have "w = v" by simp
    with Some have "c # cs = [] @ (c # cs) \<and> match_version (c # cs) = Some v
           \<and> (\<forall>i<length ([] :: string). match_version (drop i (c # cs)) = None)"
      by simp
    then show ?thesis by blast
  next
    case None
    with Cons.prems have "findall_from 0 cs = v # vs" by simp
    from Cons.IH [OF this] obtain pre post where p: "cs = pre @ post"
      "match_version post = Some v" "\<forall>i<length pre. match_version (drop i cs) = None"
      by blast
    have "\<forall>i<length (c # pre). match_version (drop i (c # cs)) = None"
    proof (intro allI impI)
      fix i
      assume "i < length (c # pre)"
      then show "match_version (drop i (c # cs)) = None"
        using None p(3) by (cases i) simp_all
    qed
    with p(1,2) have "c # cs = (c # pre) @ post \<and> match_version post = Some v
           \<and> (\<forall>i<length (c # pre). match_version (drop i (c # cs)) = None)"
      by simp
    then show ?thesis by blast
  qed
qed

lemma has_version_iff:
  "(\<exists>pre v post. s = pre @ v @ post \<and> is_version v) \<longleftrightarrow> findall_version s \<noteq> []"
proof
  assume "\<exists>pre v post. s = pre @ v @ post \<and> is_version v"
  then obtain pre0 v0 post0 where ex: "s = pre0 @ v0 @ post0" "is_version v0"
    by blast
  from match_version_complete [OF ex(2), of post0] have
    "match_version (drop (length pre0) s) \<noteq> None"
    using ex(1) by auto
  then show "findall_version s \<noteq> []"
    unfolding findall_version_def
    using findall_from_Nil [of s "length pre0"] by (cases "findall_from 0 s = []") simp_all
next
  assume "findall_version s \<noteq> []"
  then obtain v vs where "findall_from 0 s = v # vs"
    unfolding findall_version_def by (cases "findall_from 0 s") auto
  from findall_from_Cons [OF this] obtain pre post where
    p: "s = pre @ post" "match_version post = Some v"
    by blast
  from match_version_sound [OF p(2)] obtain post2 where "is_version v" "post = v @ post2"
    by (auto simp add: prefix_def)
  with p(1) show "\<exists>pre v post. s = pre @ v @ post \<and> is_version v" by blast
qed

lemma split_slash_not_Nil: "split_slash s \<noteq> []"
  by (induction s) (simp_all split: list.splits)

lemma split_slash_no_slash:
  assumes "CHR ''/'' \<notin> set name"
  shows "split_slash name = [name]"
  using assms by (induction name) auto

lemma split_slash_append:
  assumes "CHR ''/'' \<notin> set name"
  shows "split_slash (dir @ CHR ''/'' # name) = split_slash dir @ [name]"
proof (induction dir)
  case Nil
  show ?case using split_slash_no_slash [OF assms] by simp
next
  case (Cons c dir)
  show ?case
  proof (cases "c = CHR ''/''")
    case True
    then show ?thesis using Cons.IH by simp
  next
    case False
    obtain x xs where x: "split_slash dir = x # xs"
      using split_slash_not_Nil [of dir] by (cases "split_slash dir") auto
    with False Cons.IH show ?thesis by simp
  qed
qed

lemma path_name_last_component:
  assumes "CHR ''/'' \<notin> set name" "name \<noteq> []" "name \<noteq> ''.''"
  shows "path_name (dir @ ''/'' @ name) = name"
proof -
  have "path_parts (dir @ ''/'' @ name) = path_parts dir @ [name]"
    using assms by (simp add: path_parts_def split_slash_append)
  then show ?thesis
    by (cases "path_parts dir") (simp_all add: path_name_def)
qed

text \<open>
  C4. The file name of a source-archive URL is what follows its last slash. When the
  file name has no substring of the form \<^verbatim>\<open>\d+\.\d+\.\d+\<close>, the resolved version is
  \<^verbatim>\<open>"unknown"\<close>. Otherwise the resolved version is a substring of the file name of
  that form, no such substring starts further left, and none starting at the same place
  is longer.
\<close>

theorem resolve_version_first_match:
  "(CHR ''/'' \<notin> set name \<and> name \<noteq> [] \<and> name \<noteq> ''.''
      \<longrightarrow> path_name (dir @ ''/'' @ name) = name)
   \<and> (\<not> (\<exists>pre v post. path_name sources_url = pre @ v @ post \<and> is_version v)
      \<longrightarrow> resolve_version sources_url = ''unknown'')
   \<and> ((\<exists>pre v post. path_name sources_url = pre @ v @ post \<and> is_version v)
      \<longrightarrow> (\<exists>pre post.
             path_name sources_url = pre @ resolve_version sources_url @ post
             \<and> is_version (resolve_version sources_url)
             \<and> (\<forall>pre' v' post'.
                   path_name sources_url = pre' @ v' @ post' \<and> is_version v'
                   \<longrightarrow> length pre \<le> length pre'
                       \<and> (length pre' = length pre
                            \<longrightarrow> length v' \<le> length (resolve_version sources_url)))))"
proof (intro conjI impI)
  assume "CHR ''/'' \<notin> set name \<and> name \<noteq> [] \<and> name \<noteq> ''.''"
  then show "path_name (dir @ ''/'' @ name) = name"
    by (intro path_name_last_component) simp_all
next
  let ?fn = "path_name sources_url"
  assume no: "\<not> (\<exists>pre v post. ?fn = pre @ v @ post \<and> is_version v)"
  show "resolve_version sources_url = ''unknown''"
  proof (cases "findall_version ?fn")
    case Nil
    then show ?thesis by (simp add: resolve_version_def)
  next
    case (Cons v vs)
    then have "findall_from 0 ?fn = v # vs" by (simp add: findall_version_def)
    from findall_from_Cons [OF this] obtain pre post where
      p: "?fn = pre @ post" "match_version post = Some v"
      by blast
    from match_version_sound [OF p(2)] obtain post2 where "is_version v" "post = v @ post2"
      by (auto simp add: prefix_def)
    with p(1) no show ?thesis by blast
  qed
next
  let ?fn = "path_name sources_url"
  assume "\<exists>pre v post. ?fn = pre @ v @ post \<and> is_version v"
  then obtain pre0 v0 post0 where ex: "?fn = pre0 @ v0 @ post0" "is_version v0"
    by blast
  from match_version_complete [OF ex(2), of post0] have
    "match_version (drop (length pre0) ?fn) \<noteq> None"
    using ex(1) by auto
  then have "findall_from 0 ?fn \<noteq> []"
    using findall_from_Nil [of ?fn "length pre0"] by (cases "findall_from 0 ?fn = []") simp_all
  then obtain v vs where fa: "findall_from 0 ?fn = v # vs"
    by (cases "findall_from 0 ?fn") auto
  then have rv: "resolve_version sources_url = v"
    by (simp add: resolve_version_def findall_version_def)
  from findall_from_Cons [OF fa] obtain pre post where
    p: "?fn = pre @ post" "match_version post = Some v"
    "\<forall>i<length pre. match_version (drop i ?fn) = None"
    by blast
  from match_version_sound [OF p(2)] obtain post2 where v: "is_version v" "post = v @ post2"
    by (auto simp add: prefix_def)
  have left: "length pre \<le> length pre'
      \<and> (length pre' = length pre \<longrightarrow> length v' \<le> length v)"
    if h: "?fn = pre' @ v' @ post' \<and> is_version v'" for pre' v' post'
  proof -
    from h have fn: "?fn = pre' @ v' @ post'" and iv: "is_version v'" by simp_all
    from match_version_complete [OF iv, of post'] obtain w where
      w: "match_version (v' @ post') = Some w" "prefix v' w"
      by blast
    have dr: "drop (length pre') ?fn = v' @ post'"
      unfolding fn by simp
    have a: "length pre \<le> length pre'"
    proof (rule ccontr)
      assume "\<not> length pre \<le> length pre'"
      then have "length pre' < length pre" by simp
      with p(3) have "match_version (drop (length pre') ?fn) = None" by simp
      with dr w(1) show False by simp
    qed
    have b: "length v' \<le> length v" if "length pre' = length pre"
    proof -
      from that p(1) fn have "pre' = pre" by (metis append_eq_append_conv)
      with p(1) fn have "post = v' @ post'" by simp
      with p(2) w(1) have "w = v" by simp
      with w(2) show ?thesis by (simp add: prefix_length_le)
    qed
    from a b show ?thesis by simp
  qed
  have "?fn = pre @ v @ post2" using p(1) v(2) by simp
  with v(1) left show "\<exists>pre post.
             ?fn = pre @ resolve_version sources_url @ post
             \<and> is_version (resolve_version sources_url)
             \<and> (\<forall>pre' v' post'.
                   ?fn = pre' @ v' @ post' \<and> is_version v'
                   \<longrightarrow> length pre \<le> length pre'
                       \<and> (length pre' = length pre
                            \<longrightarrow> length v' \<le> length (resolve_version sources_url)))"
    unfolding rv by blast
qed


lemmas version_eval = resolve_version_def findall_version_def path_name_def path_parts_def
  match_version_def isdigit_def Let_def

theorem resolve_version_first_match_witness:
  "path_name ''https://www.python.org/ftp/python/3.13.0/Python-3.13.0.tgz'' = ''Python-3.13.0.tgz''
   \<and> (\<exists>pre v post. path_name ''https://www.python.org/ftp/python/3.13.0/Python-3.13.0.tgz''
                    = pre @ v @ post \<and> is_version v)
   \<and> resolve_version ''https://www.python.org/ftp/python/3.13.0/Python-3.13.0.tgz'' = ''3.13.0''
   \<and> is_version (resolve_version ''https://www.python.org/ftp/python/3.13.0/Python-3.13.0.tgz'')
   \<and> path_name ''https://example.org/3.13.0/cpython.tgz'' = ''cpython.tgz''
   \<and> \<not> (\<exists>pre v post. path_name ''https://example.org/3.13.0/cpython.tgz''
                        = pre @ v @ post \<and> is_version v)
   \<and> resolve_version ''https://example.org/3.13.0/cpython.tgz'' = ''unknown''"
proof -
  let ?u1 = "''https://www.python.org/ftp/python/3.13.0/Python-3.13.0.tgz''"
  let ?u2 = "''https://example.org/3.13.0/cpython.tgz''"
  have n: "CHR ''/'' \<notin> set ''Python-3.13.0.tgz'' \<and> ''Python-3.13.0.tgz'' \<noteq> []
      \<and> ''Python-3.13.0.tgz'' \<noteq> ''.''"
    "CHR ''/'' \<notin> set ''cpython.tgz'' \<and> ''cpython.tgz'' \<noteq> [] \<and> ''cpython.tgz'' \<noteq> ''.''"
    by simp_all
  have p1: "path_name ?u1 = ''Python-3.13.0.tgz''"
    using resolve_version_first_match [of "''Python-3.13.0.tgz''"
        "''https://www.python.org/ftp/python/3.13.0''" ?u1, THEN conjunct1, THEN mp, OF n(1)]
    by simp
  have p2: "path_name ?u2 = ''cpython.tgz''"
    using resolve_version_first_match [of "''cpython.tgz''" "''https://example.org/3.13.0''" ?u2,
        THEN conjunct1, THEN mp, OF n(2)]
    by simp
  have "findall_version (path_name ?u1) \<noteq> []"
    unfolding p1 by (simp add: version_eval)
  then have h1: "\<exists>pre v post. path_name ?u1 = pre @ v @ post \<and> is_version v"
    by (rule has_version_iff [THEN iffD2])
  have "findall_version (path_name ?u2) = []"
    unfolding p2 by (simp add: version_eval)
  then have h2: "\<not> (\<exists>pre v post. path_name ?u2 = pre @ v @ post \<and> is_version v)"
    unfolding has_version_iff by simp
  have v1: "resolve_version ?u1 = ''3.13.0''"
    unfolding resolve_version_def p1 by (simp add: version_eval)
  from resolve_version_first_match [of "''x''" "''y''" ?u1, THEN conjunct2, THEN conjunct2,
      THEN mp, OF h1]
  have i1: "is_version (resolve_version ?u1)"
    by (elim exE conjE)
  from resolve_version_first_match [of "''x''" "''y''" ?u2, THEN conjunct2, THEN conjunct1,
      THEN mp, OF h2]
  have v2: "resolve_version ?u2 = ''unknown''" .
  from p1 h1 v1 i1 p2 h2 v2 show ?thesis by (intro conjI)
qed

subsection \<open>Reuse of extracted sources\<close>

lemma find_first:
  assumes "P e" "\<forall>x\<in>set pre. \<not> P x"
  shows "find P (pre @ e # post) = Some e"
  using assms by (induction pre) simp_all

text \<open>
  C5. When the build directory has, among its immediate entries, a directory whose name
  contains the resolved version, \<^verbatim>\<open>get_cpython\<close> returns the first such entry in
  iteration order together with the version, and the state after the call is the state
  before it: no command has been run, so nothing is downloaded, and the file system is
  unchanged, so nothing is extracted.
\<close>

theorem get_cpython_reuses_sources:
  assumes "iterdir (files st) (BUILD_DIR w) = Inr entries"
    and "\<exists>entry\<in>set entries.
           is_dir (files st) entry \<and> contains (resolve_version sources_url) (last entry)"
  shows "\<exists>pre entry post.
           entries = pre @ entry # post
           \<and> is_dir (files st) entry \<and> contains (resolve_version sources_url) (last entry)
           \<and> (\<forall>e\<in>set pre.
                \<not> (is_dir (files st) e \<and> contains (resolve_version sources_url) (last e)))
           \<and> get_cpython w sources_url st = Inr ((entry, resolve_version sources_url), st)"
proof -
  let ?P = "\<lambda>entry. is_dir (files st) entry \<and> contains (resolve_version sources_url) (last entry)"
  from split_list_first_prop [OF assms(2)] obtain pre entry post where
    s: "entries = pre @ entry # post" "?P entry" "\<forall>e\<in>set pre. \<not> ?P e"
    by blast
  from find_first [of ?P entry pre post, OF s(2,3)] have "find ?P entries = Some entry"
    unfolding s(1) .
  with assms(1) have "get_cpython w sources_url st = Inr ((entry, resolve_version sources_url), st)"
    by (simp add: get_cpython_def Let_def)
  with s show ?thesis by blast
qed

lemmas cache_eval = example_world_def example_build_fs_def BUILD_DIR_def iterdir_def is_dir_def

theorem get_cpython_reuses_sources_witness:
  "iterdir (files \<lparr>files = example_build_fs, commands = []\<rparr>) (BUILD_DIR example_world)
     = Inr [[''home'', ''py2droid'', ''build'', ''notes-3.13.0.txt''],
            [''home'', ''py2droid'', ''build'', ''Python-3.13.0'']]
   \<and> get_cpython example_world ''https://www.python.org/ftp/python/3.13.0/Python-3.13.0.tgz''
         \<lparr>files = example_build_fs, commands = []\<rparr>
       = Inr (([''home'', ''py2droid'', ''build'', ''Python-3.13.0''], ''3.13.0''),
              \<lparr>files = example_build_fs, commands = []\<rparr>)"
proof -
  let ?st = "\<lparr>files = example_build_fs, commands = []\<rparr>"
  let ?url = "''https://www.python.org/ftp/python/3.13.0/Python-3.13.0.tgz''"
  let ?f = "[''home'', ''py2droid'', ''build'', ''notes-3.13.0.txt'']"
  let ?d = "[''home'', ''py2droid'', ''build'', ''Python-3.13.0'']"
  have v: "resolve_version ?url = ''3.13.0''"
    by (simp add: version_eval)
  have h1: "iterdir (files ?st) (BUILD_DIR example_world) = Inr [?f, ?d]"
    by (simp add: cache_eval)
  have nf: "\<not> is_dir (files ?st) ?f" and d: "is_dir (files ?st) ?d"
    by (simp_all add: cache_eval)
  have c: "contains (resolve_version ?url) (last ?d)"
    unfolding v by simp
  from d c have h2: "\<exists>entry\<in>set [?f, ?d].
           is_dir (files ?st) entry \<and> contains (resolve_version ?url) (last entry)"
    by simp
  from get_cpython_reuses_sources [OF h1 h2] obtain pre entry post where
    r: "[?f, ?d] = pre @ entry # post" "is_dir (files ?st) entry"
    "get_cpython example_world ?url ?st = Inr ((entry, resolve_version ?url), ?st)"
    by blast
  from r(1) have "entry = ?f \<or> entry = ?d"
    by (metis in_set_conv_decomp list.set_intros(1) set_ConsD set_empty2 empty_iff)
  with r(2) nf have "entry = ?d" by blast
  with r(3) v h1 show ?thesis by simp
qed

subsection \<open>The build driver\<close>










end
